theory Spec2Isabelle
  imports Complex_Main "HOL-Library.Signed_Division"
begin

section \<open>Data model (src/types.ts, src/workers/Worker.ts lines 1-25)\<close>

text \<open>
  Pixel coordinates and clock readings of \<^verbatim>\<open>Date.now()\<close> are JavaScript numbers that hold
  whole numbers in every call the viewer makes; they are modelled as \<^typ>\<open>int\<close>.
  The fields of \<^verbatim>\<open>Rectangle\<close> carry the prefix \<open>rect_\<close>, because a record field is a
  constant and \<open>x\<close>, \<open>y\<close> are wanted as variable names.
\<close>

record ImageSource =
  width :: int
  height :: int

record Rectangle =
  rect_x :: int
  rect_y :: int
  rect_width :: int
  rect_height :: int

record DrawMessage =
  imageDimensions :: ImageSource
  bufferWidth :: int
  viewport :: Rectangle

text \<open>
  An incoming message is a cancel message, a draw message, or anything else that reaches
  the worker: \<open>OtherMessage a\<close> stands for a message whose action \<open>a\<close> is neither
  \<^verbatim>\<open>"cancel"\<close> nor \<^verbatim>\<open>"draw"\<close>; the empty string stands for a missing action.
\<close>

datatype IncomingMesssage =
    CancelMessage
  | DrawMsg DrawMessage
  | OtherMessage string

fun action :: "IncomingMesssage \<Rightarrow> string" where
  "action CancelMessage = ''cancel''"
| "action (DrawMsg m) = ''draw''"
| "action (OtherMessage a) = a"

text \<open>
  The bitmap of a result is the list of fill operations that painted it, in image
  coordinates: a 40 by 40 tile at a position, dark or white, and the marker rectangle.
  The rgb value of a dark tile is a function of the tile's position and the image
  dimensions and is not kept.
\<close>

datatype canvas_op =
    FillTile bool int int
  | FillMarker ImageSource

type_synonym ImageBitmap = "canvas_op list"

record DrawResult =
  runId :: string
  timestamp :: int
  resultViewport :: Rectangle
  bitmap :: ImageBitmap

section \<open>The task queue (class AsyncQueue, Worker.ts lines 28-56)\<close>

text \<open>
  The buffer \<open>queue\<close> and the list of resolvers of pending \<open>dequeue\<close> promises. A resolver
  is named by a value of type \<open>'r\<close>; \<open>dequeue\<close> takes the resolver of the promise it would
  create. \<open>enqueue\<close> returns, next to the new queue, the resolver it called and the item it
  passed to it, if any.
\<close>

record ('a, 'r) AsyncQueue =
  queue :: "'a list"
  resolvers :: "'r list"

datatype 'a promise = Resolved 'a | Pending

definition AsyncQueue_new :: "('a, 'r) AsyncQueue" where
  "AsyncQueue_new = \<lparr>queue = [], resolvers = []\<rparr>"

definition enqueue :: "'a \<Rightarrow> ('a, 'r) AsyncQueue \<Rightarrow> ('r \<times> 'a) option \<times> ('a, 'r) AsyncQueue" where
  "enqueue item q =
     (case resolvers q of
        resolver # rest \<Rightarrow> (Some (resolver, item), q\<lparr>resolvers := rest\<rparr>)
      | [] \<Rightarrow> (None, q\<lparr>queue := queue q @ [item]\<rparr>))"

definition dequeue :: "'r \<Rightarrow> ('a, 'r) AsyncQueue \<Rightarrow> 'a promise \<times> ('a, 'r) AsyncQueue" where
  "dequeue resolve q =
     (case queue q of
        item # rest \<Rightarrow> (Resolved item, q\<lparr>queue := rest\<rparr>)
      | [] \<Rightarrow> (Pending, q\<lparr>resolvers := resolvers q @ [resolve]\<rparr>))"

definition items :: "('a, 'r) AsyncQueue \<Rightarrow> 'a list" where
  "items q = queue q"

text \<open>The two lists are never both non-empty.\<close>

definition queue_inv :: "('a, 'r) AsyncQueue \<Rightarrow> bool" where
  "queue_inv q = (queue q = [] \<or> resolvers q = [])"

section \<open>The result gate (Viewer.tsx lines 26-88)\<close>

record viewer =
  drawResultRef :: "DrawResult option"
  isAnimationPendingRef :: bool

text \<open>
  \<open>updateCanvas\<close> schedules one animation frame unless one is pending; the frame callback
  paints \<open>drawResultRef\<close> and clears the flag on every path.
\<close>

definition updateCanvas :: "viewer \<Rightarrow> viewer" where
  "updateCanvas v = (if isAnimationPendingRef v then v else v\<lparr>isAnimationPendingRef := True\<rparr>)"

definition animationFrame :: "viewer \<Rightarrow> viewer" where
  "animationFrame v = v\<lparr>isAnimationPendingRef := False\<rparr>"

definition viewer_onmessage :: "DrawResult \<Rightarrow> viewer \<Rightarrow> viewer" where
  "viewer_onmessage result v =
     (case drawResultRef v of
        Some cur \<Rightarrow>
          if timestamp cur > timestamp result then v
          else updateCanvas (v\<lparr>drawResultRef := Some result\<rparr>)
      | None \<Rightarrow> updateCanvas (v\<lparr>drawResultRef := Some result\<rparr>))"

definition viewer_init :: viewer where
  "viewer_init = \<lparr>drawResultRef = None, isAnimationPendingRef = False\<rparr>"

section \<open>The worker (Worker.ts lines 58-239)\<close>

subsection \<open>State and environment\<close>

text \<open>
  The worker function is asynchronous code on one event loop. Its state is the module's
  variables, what it has sent (\<open>posted\<close>, the results handed to \<^verbatim>\<open>postMessage\<close>, and
  \<open>console\<close>), and the point at which the drain loop \<^verbatim>\<open>processQueue\<close> is suspended
  (\<open>task\<close>):
  \<^item> \<open>Idle\<close>: no drain loop is running;
  \<^item> \<open>Dequeuing p\<close>: at \<^verbatim>\<open>await queue.dequeue()\<close> (line 201), \<open>p\<close> the promise;
  \<^item> \<open>Heavy myRunId startTime m\<close>: inside \<^verbatim>\<open>simulateHeavyComputation\<close>, in the yield of
    \<^verbatim>\<open>isCurrentRunCancelled\<close> (line 114), drawing for message \<open>m\<close>;
  \<^item> \<open>Tiling myRunId y cv m\<close>: inside the tile loop of \<^verbatim>\<open>draw\<close>, in the yield after the
    row at \<open>y\<close> (line 152), \<open>cv\<close> what has been painted;
  \<^item> \<open>LoopYield\<close>: at \<^verbatim>\<open>await yieldToIncomingMessages()\<close> of the drain loop (line 203).

  Each function below is the code between two suspension points. What the platform
  answers during such a stretch is the environment \<open>env\<close>: the clock at line 219 or 164
  (\<open>date_now\<close>), the clock at line 198 (\<open>date_now2\<close>), \<^verbatim>\<open>performance.now()\<close>, the
  identifier made from \<^verbatim>\<open>Math.random()\<close>, and what acquiring the canvas and its 2D
  context gives: an exception, no context, or a context.
\<close>

datatype canvas_outcome = CanvasThrows string | NoContext | Context

record env =
  date_now :: int
  date_now2 :: int
  perf_now :: real
  random_id :: string
  canvas :: canvas_outcome

datatype log = ConsoleWarn string | ConsoleError string

datatype pc =
    Idle
  | Dequeuing "IncomingMesssage promise"
  | Heavy string real DrawMessage
  | Tiling string int ImageBitmap DrawMessage
  | LoopYield

record worker =
  wqueue :: "(IncomingMesssage, unit) AsyncQueue"
  isProcessingMessages :: bool
  currentRunId :: string
  lastDrawResult :: "DrawResult option"
  queueProcessingStarted :: int
  posted :: "DrawResult list"
  console :: "log list"
  task :: pc

definition worker_init :: worker where
  "worker_init =
     \<lparr>wqueue = AsyncQueue_new, isProcessingMessages = False, currentRunId = [],
      lastDrawResult = None, queueProcessingStarted = 0, posted = [], console = [],
      task = Idle\<rparr>"

text \<open>
  A stretch of code inside the \<^verbatim>\<open>try\<close> block ends suspended at a timer, or with the
  message handler having returned, or with an exception.
\<close>

datatype outcome = Suspended | Returned | Threw string

definition MAX_IMAGE_AGE_MS :: int where
  "MAX_IMAGE_AGE_MS = 250"

definition tileSize :: int where
  "tileSize = 40"

definition durationMs :: real where
  "durationMs = 100"

subsection \<open>Cancellation (lines 64-83)\<close>

text \<open>The empty string \<open>[]\<close> is the value "none" of the current-run slot.\<close>

definition cancelCurrentDraw :: "worker \<Rightarrow> worker" where
  "cancelCurrentDraw st = st\<lparr>currentRunId := []\<rparr>"

text \<open>The comparison of line 82, made when the timer of the yield has fired.\<close>

definition isCurrentRunCancelled :: "string \<Rightarrow> worker \<Rightarrow> bool" where
  "isCurrentRunCancelled myRunId st = (currentRunId st \<noteq> myRunId)"

subsection \<open>The draw executor (lines 85-173)\<close>

text \<open>
  JavaScript's \<^verbatim>\<open>%\<close> truncates towards zero: the remainder has the sign of the dividend.
  That is \<open>smod\<close>.
\<close>

definition startY :: "Rectangle \<Rightarrow> int" where
  "startY vp = rect_y vp - (rect_y vp smod tileSize)"

definition startX :: "Rectangle \<Rightarrow> int" where
  "startX vp = rect_x vp - (rect_x vp smod tileSize)"

definition isDark :: "int \<Rightarrow> int \<Rightarrow> bool" where
  "isDark x y = (\<lfloor>real_of_int x / real_of_int tileSize + real_of_int y / real_of_int tileSize\<rfloor> smod 2 = 0)"

text \<open>The inner loop of line 143: the tiles of the row at \<open>y\<close>, from \<open>x\<close> up to \<open>xend\<close>.\<close>

function tile_row :: "int \<Rightarrow> int \<Rightarrow> int \<Rightarrow> canvas_op list" where
  "tile_row x xend y =
     (if x < xend then FillTile (isDark x y) x y # tile_row (x + tileSize) xend y else [])"
  by pat_completeness auto
termination
  by (relation "measure (\<lambda>(x, xend, y). nat (xend - x))") (auto simp: tileSize_def)

declare tile_row.simps [simp del]

text \<open>Lines 156 to 172: the marker, the result, its posting, and the current-run slot.\<close>

definition draw_complete :: "env \<Rightarrow> string \<Rightarrow> DrawMessage \<Rightarrow> ImageBitmap \<Rightarrow> worker \<Rightarrow> worker" where
  "draw_complete e myRunId m cv st =
     (let result = \<lparr>runId = myRunId, timestamp = date_now e, resultViewport = viewport m,
                     bitmap = cv @ [FillMarker (imageDimensions m)]\<rparr>
      in st\<lparr>lastDrawResult := Some result,
            posted := posted st @ [result],
            currentRunId := (if currentRunId st = myRunId then [] else currentRunId st)\<rparr>)"

text \<open>
  The head of the outer loop (line 142) at row \<open>y\<close>: paint the row and yield, or leave the
  loop and complete.
\<close>

definition draw_rows :: "env \<Rightarrow> string \<Rightarrow> DrawMessage \<Rightarrow> ImageBitmap \<Rightarrow> int \<Rightarrow> worker \<Rightarrow> outcome \<times> worker" where
  "draw_rows e myRunId m cv y st =
     (let vp = viewport m in
      if y < rect_y vp + rect_height vp
      then (Suspended,
            st\<lparr>task := Tiling myRunId y
                          (cv @ tile_row (startX vp) (rect_x vp + rect_width vp) y) m\<rparr>)
      else (Returned, draw_complete e myRunId m cv st))"

text \<open>Lines 130 to 142, after \<^verbatim>\<open>simulateHeavyComputation\<close> has returned.\<close>

definition draw_render :: "env \<Rightarrow> string \<Rightarrow> DrawMessage \<Rightarrow> worker \<Rightarrow> outcome \<times> worker" where
  "draw_render e myRunId m st =
     (case canvas e of
        CanvasThrows err \<Rightarrow> (Threw err, st)
      | NoContext \<Rightarrow> (Returned, st)
      | Context \<Rightarrow> draw_rows e myRunId m [] (startY (viewport m)) st)"

text \<open>
  Lines 124 to 128 and 89 to 114: a new run identifier is installed and the heavy
  computation runs its first round (the loop test of line 92 holds right after
  \<open>startTime\<close> was read) up to the yield.
\<close>

definition draw :: "env \<Rightarrow> DrawMessage \<Rightarrow> worker \<Rightarrow> outcome \<times> worker" where
  "draw e m st =
     (let myRunId = random_id e;
          st1 = st\<lparr>currentRunId := myRunId\<rparr>
      in (Suspended, st1\<lparr>task := Heavy myRunId (perf_now e) m\<rparr>))"

text \<open>
  After the yield of line 114: \<^verbatim>\<open>simulateHeavyComputation\<close> returns when the run is
  cancelled, goes round again while the duration has not passed, and returns otherwise.
  It returns nothing, and \<^verbatim>\<open>draw\<close> goes on to render in either case.
\<close>

definition simulateHeavyComputation_resume :: "env \<Rightarrow> string \<Rightarrow> real \<Rightarrow> DrawMessage \<Rightarrow> worker \<Rightarrow> outcome \<times> worker" where
  "simulateHeavyComputation_resume e myRunId startTime m st =
     (if isCurrentRunCancelled myRunId st then draw_render e myRunId m st
      else if perf_now e - startTime < durationMs then (Suspended, st)
      else draw_render e myRunId m st)"

text \<open>After the yield of line 152: abort when cancelled, else on to the next row.\<close>

definition draw_resume :: "env \<Rightarrow> string \<Rightarrow> int \<Rightarrow> ImageBitmap \<Rightarrow> DrawMessage \<Rightarrow> worker \<Rightarrow> outcome \<times> worker" where
  "draw_resume e myRunId y cv m st =
     (if isCurrentRunCancelled myRunId st then (Returned, st)
      else draw_rows e myRunId m cv (y + tileSize) st)"

subsection \<open>The drain loop (lines 175-211)\<close>

definition handleDrawMessage :: "env \<Rightarrow> DrawMessage \<Rightarrow> worker \<Rightarrow> outcome \<times> worker" where
  "handleDrawMessage e m st =
     (if list_ex (\<lambda>msg. action msg = ''draw'') (items (wqueue st)) then (Returned, st)
      else draw e m st)"

fun handleQueueMessage :: "env \<Rightarrow> IncomingMesssage \<Rightarrow> worker \<Rightarrow> outcome \<times> worker" where
  "handleQueueMessage e (DrawMsg m) st = handleDrawMessage e m st"
| "handleQueueMessage e message st =
     (Returned, st\<lparr>console := console st @ [ConsoleWarn (action message)]\<rparr>)"

text \<open>The \<^verbatim>\<open>finally\<close> block, after which the drain loop is gone.\<close>

definition processQueue_finally :: "worker \<Rightarrow> worker" where
  "processQueue_finally st =
     st\<lparr>isProcessingMessages := False, queueProcessingStarted := 0, task := Idle\<rparr>"

text \<open>
  What the drain loop does with the outcome of a stretch of message handling: it stays
  suspended with the handler; or the handler has returned and the loop yields (line 203);
  or the exception reaches \<^verbatim>\<open>catch\<close>, is logged, and \<^verbatim>\<open>finally\<close> runs.
\<close>

fun processQueue_after :: "outcome \<times> worker \<Rightarrow> worker" where
  "processQueue_after (Suspended, st) = st"
| "processQueue_after (Returned, st) = st\<lparr>task := LoopYield\<rparr>"
| "processQueue_after (Threw err, st) =
     processQueue_finally (st\<lparr>console := console st @ [ConsoleError err]\<rparr>)"

text \<open>The loop test of line 200 and the call of \<^verbatim>\<open>dequeue\<close> of line 201.\<close>

definition processQueue_loop :: "worker \<Rightarrow> worker" where
  "processQueue_loop st =
     (if length (items (wqueue st)) > 0
      then (case dequeue () (wqueue st) of (p, q) \<Rightarrow> st\<lparr>wqueue := q, task := Dequeuing p\<rparr>)
      else processQueue_finally st)"

definition processQueue :: "env \<Rightarrow> worker \<Rightarrow> worker" where
  "processQueue e st =
     processQueue_loop (st\<lparr>isProcessingMessages := True, queueProcessingStarted := date_now2 e\<rparr>)"

text \<open>
  The suspended drain loop goes on, when its promise is resolved or its timer has fired,
  up to its next suspension point.
\<close>

definition resume :: "env \<Rightarrow> worker \<Rightarrow> worker" where
  "resume e st =
     (case task st of
        Idle \<Rightarrow> st
      | Dequeuing Pending \<Rightarrow> st
      | Dequeuing (Resolved message) \<Rightarrow> processQueue_after (handleQueueMessage e message st)
      | Heavy myRunId startTime m \<Rightarrow>
          processQueue_after (simulateHeavyComputation_resume e myRunId startTime m st)
      | Tiling myRunId y cv m \<Rightarrow> processQueue_after (draw_resume e myRunId y cv m st)
      | LoopYield \<Rightarrow> processQueue_loop st)"

subsection \<open>The dispatcher (\<^verbatim>\<open>self.onmessage\<close>, lines 213-239)\<close>

definition cancelByNewDrawRequest :: "int \<Rightarrow> IncomingMesssage \<Rightarrow> worker \<Rightarrow> bool" where
  "cancelByNewDrawRequest now message st =
     (action message = ''draw'' \<and>
      (now - queueProcessingStarted st < MAX_IMAGE_AGE_MS \<or>
       (case lastDrawResult st of
          None \<Rightarrow> False
        | Some r \<Rightarrow> now < timestamp r + MAX_IMAGE_AGE_MS)))"

definition shouldCancel :: "int \<Rightarrow> IncomingMesssage \<Rightarrow> worker \<Rightarrow> bool" where
  "shouldCancel now message st =
     (cancelByNewDrawRequest now message st \<or> action message = ''cancel'')"

definition shouldQueue :: "IncomingMesssage \<Rightarrow> bool" where
  "shouldQueue message = (action message \<noteq> ''cancel'')"

text \<open>
  \<^verbatim>\<open>queue.enqueue(event.data)\<close> on the worker's queue. When \<open>enqueue\<close> calls a resolver, the
  promise of the drain loop's pending \<open>dequeue\<close> is resolved with the item.
\<close>

definition queue_enqueue :: "IncomingMesssage \<Rightarrow> worker \<Rightarrow> worker" where
  "queue_enqueue message st =
     (case enqueue message (wqueue st) of
        (None, q) \<Rightarrow> st\<lparr>wqueue := q\<rparr>
      | (Some (resolver, item), q) \<Rightarrow>
          st\<lparr>wqueue := q,
             task := (if task st = Dequeuing Pending then Dequeuing (Resolved item) else task st)\<rparr>)"

text \<open>The handler up to its first suspension point, the \<^verbatim>\<open>await\<close> of line 201.\<close>

definition onmessage :: "env \<Rightarrow> IncomingMesssage \<Rightarrow> worker \<Rightarrow> worker" where
  "onmessage e message st =
     (if action message = [] then st
      else
        let now = date_now e;
            st1 = (if shouldCancel now message st then cancelCurrentDraw st else st)
        in if shouldQueue message
           then (let st2 = queue_enqueue message st1
                 in if \<not> isProcessingMessages st2 then processQueue e st2 else st2)
           else st1)"

subsection \<open>Runs of the event loop\<close>

datatype event = Message env IncomingMesssage | Resume env

fun step :: "event \<Rightarrow> worker \<Rightarrow> worker" where
  "step (Message e message) st = onmessage e message st"
| "step (Resume e) st = resume e st"

definition run :: "event list \<Rightarrow> worker \<Rightarrow> worker" where
  "run evs st = fold step evs st"

text \<open>
  What holds of every state the worker reaches from \<open>worker_init\<close>: the drain loop never
  waits in \<open>dequeue\<close>, since line 200 guards the call, and the processing flag is set
  exactly while a drain loop exists.
\<close>

definition worker_inv :: "worker \<Rightarrow> bool" where
  "worker_inv st =
     (resolvers (wqueue st) = [] \<and> task st \<noteq> Dequeuing Pending \<and>
      isProcessingMessages st = (task st \<noteq> Idle))"

text \<open>
  When the drain loop was last started, over a run of the event loop: \<^verbatim>\<open>processQueue\<close> is
  entered (and reads the clock at line 198) by a message that has an action, is not a
  cancel message, and finds the processing flag clear (lines 232 to 236). \<open>loop_started\<close>
  follows a run from state \<open>st\<close> and returns the clock of the last such entry, starting
  from \<open>t\<close>.
\<close>

definition starts_loop :: "IncomingMesssage \<Rightarrow> worker \<Rightarrow> bool" where
  "starts_loop message st =
     (action message \<noteq> [] \<and> shouldQueue message \<and> \<not> isProcessingMessages st)"

fun loop_started :: "event list \<Rightarrow> worker \<Rightarrow> int option \<Rightarrow> int option" where
  "loop_started [] st t = t"
| "loop_started (Message e message # evs) st t =
     loop_started evs (onmessage e message st)
       (if starts_loop message st then Some (date_now2 e) else t)"
| "loop_started (Resume e # evs) st t = loop_started evs (resume e st) t"

text \<open>
  The recorded start \<open>queueProcessingStarted\<close> against the last start: equal while the
  processing flag is set, and 0 while it is clear.
\<close>

definition start_recorded :: "worker \<Rightarrow> int option \<Rightarrow> bool" where
  "start_recorded st t =
     (if isProcessingMessages st then t = Some (queueProcessingStarted st)
      else queueProcessingStarted st = 0)"

section \<open>Example inputs\<close>

definition imageDims :: ImageSource where
  "imageDims = \<lparr>width = 10000, height = 10000\<rparr>"

definition drawA :: DrawMessage where
  "drawA = \<lparr>imageDimensions = imageDims, bufferWidth = 100,
            viewport = \<lparr>rect_x = 0, rect_y = 0, rect_width = 80, rect_height = 40\<rparr>\<rparr>"

definition drawB :: DrawMessage where
  "drawB = \<lparr>imageDimensions = imageDims, bufferWidth = 100,
            viewport = \<lparr>rect_x = 40, rect_y = 0, rect_width = 80, rect_height = 40\<rparr>\<rparr>"

definition drawC :: DrawMessage where
  "drawC = \<lparr>imageDimensions = imageDims, bufferWidth = 100,
            viewport = \<lparr>rect_x = 80, rect_y = 0, rect_width = 80, rect_height = 40\<rparr>\<rparr>"

text \<open>A draw request for a viewport of height zero: the tile loop has no row.\<close>

definition drawZ :: DrawMessage where
  "drawZ = \<lparr>imageDimensions = imageDims, bufferWidth = 100,
            viewport = \<lparr>rect_x = 0, rect_y = 0, rect_width = 80, rect_height = 0\<rparr>\<rparr>"

text \<open>A viewport left of and above the image, as dragging the image to the right gives.\<close>

definition vpNeg :: Rectangle where
  "vpNeg = \<lparr>rect_x = - 10, rect_y = - 90, rect_width = 40, rect_height = 40\<rparr>"

definition env_at :: "int \<Rightarrow> string \<Rightarrow> canvas_outcome \<Rightarrow> env" where
  "env_at t rid c =
     \<lparr>date_now = t, date_now2 = t, perf_now = real_of_int t, random_id = rid, canvas = c\<rparr>"

text \<open>Draw A has arrived at time 1000 at the fresh worker and its run \<open>r1\<close> has started.\<close>

definition heavyA :: worker where
  "heavyA = run [Message (env_at 1000 ''r1'' Context) (DrawMsg drawA),
                 Resume (env_at 1000 ''r1'' Context)] worker_init"

text \<open>Then draws B and C arrive, at 1010 and 1020, while run \<open>r1\<close> is in flight.\<close>

definition stBC :: worker where
  "stBC = run [Message (env_at 1010 ''r2'' Context) (DrawMsg drawB),
               Message (env_at 1020 ''r3'' Context) (DrawMsg drawC)] heavyA"

text \<open>
  From there the run \<open>r1\<close>, cancelled, paints its first row and aborts, and the drain loop
  dequeues B.
\<close>

definition dequeuedB :: worker where
  "dequeuedB = run [Resume (env_at 1030 ''r4'' Context), Resume (env_at 1040 ''r4'' Context),
                    Resume (env_at 1050 ''r4'' Context)] stBC"

text \<open>Without B and C: the heavy computation of \<open>r1\<close> is over at 1200 and the row is painted.\<close>

definition tilingA :: worker where
  "tilingA = resume (env_at 1200 ''r5'' Context) heavyA"

text \<open>Draw Z has arrived, its run \<open>r6\<close> has started and a cancel message has come in.\<close>

definition heavyZ_cancelled :: worker where
  "heavyZ_cancelled =
     run [Message (env_at 1000 ''r6'' Context) (DrawMsg drawZ),
          Resume (env_at 1000 ''r6'' Context),
          Message (env_at 1005 ''r7'' Context) CancelMessage] worker_init"

text \<open>
  Draw B arrives at 1260 while run \<open>r1\<close> is in flight; \<open>r1\<close> completes at 1280; the drain
  loop, started at 1000, dequeues B and starts its run \<open>r2\<close>.
\<close>

definition heavyB :: worker where
  "heavyB = run [Message (env_at 1260 ''r2'' Context) (DrawMsg drawB),
                 Resume (env_at 1270 ''r2'' Context), Resume (env_at 1280 ''r2'' Context),
                 Resume (env_at 1285 ''r2'' Context), Resume (env_at 1290 ''r2'' Context)] heavyA"

text \<open>
  Draw A arrives at 1000 and its run \<open>r1\<close> starts; at 1100 the heavy computation is over and
  no 2D context is obtained; at 1110 the drain loop finds the buffer empty and ends.
\<close>

definition idle_events :: "event list" where
  "idle_events =
     [Message (env_at 1000 ''r1'' Context) (DrawMsg drawA),
      Resume (env_at 1000 ''r1'' Context),
      Resume (env_at 1100 ''r1'' NoContext),
      Resume (env_at 1110 ''r1'' NoContext)]"

definition idleA :: worker where
  "idleA = run idle_events worker_init"

definition heavyA_events :: "event list" where
  "heavyA_events = [Message (env_at 1000 ''r1'' Context) (DrawMsg drawA),
                    Resume (env_at 1000 ''r1'' Context)]"

definition resultA :: DrawResult where
  "resultA = \<lparr>runId = ''a'', timestamp = 1000, resultViewport = viewport drawA, bitmap = []\<rparr>"

definition resultB :: DrawResult where
  "resultB = \<lparr>runId = ''b'', timestamp = 1000, resultViewport = viewport drawB, bitmap = []\<rparr>"

definition resultOld :: DrawResult where
  "resultOld = \<lparr>runId = ''c'', timestamp = 900, resultViewport = viewport drawC, bitmap = []\<rparr>"

definition viewerA :: viewer where
  "viewerA = viewer_onmessage resultA viewer_init"


section \<open>Evaluation of the examples\<close>

lemmas queue_defs = enqueue_def dequeue_def items_def AsyncQueue_new_def

lemmas worker_defs =
  onmessage_def shouldCancel_def shouldQueue_def cancelByNewDrawRequest_def
  cancelCurrentDraw_def queue_enqueue_def processQueue_def processQueue_loop_def
  processQueue_finally_def resume_def handleDrawMessage_def draw_def
  simulateHeavyComputation_resume_def draw_resume_def draw_render_def draw_rows_def
  draw_complete_def isCurrentRunCancelled_def run_def worker_init_def
  MAX_IMAGE_AGE_MS_def durationMs_def tileSize_def Let_def

lemma heavyA_eq:
  "heavyA = \<lparr>wqueue = \<lparr>queue = [], resolvers = []\<rparr>, isProcessingMessages = True,
     currentRunId = ''r1'', lastDrawResult = None, queueProcessingStarted = 1000,
     posted = [], console = [], task = Heavy ''r1'' 1000 drawA\<rparr>"
  by (simp add: heavyA_def worker_defs queue_defs env_at_def)

lemma stBC_eq:
  "stBC = \<lparr>wqueue = \<lparr>queue = [DrawMsg drawB, DrawMsg drawC], resolvers = []\<rparr>,
     isProcessingMessages = True, currentRunId = [], lastDrawResult = None,
     queueProcessingStarted = 1000, posted = [], console = [],
     task = Heavy ''r1'' 1000 drawA\<rparr>"
  by (simp add: stBC_def heavyA_eq worker_defs queue_defs env_at_def)

lemma tile_row_A: "tile_row 0 80 0 = [FillTile True 0 0, FillTile False 40 0]"
  by (simp add: tile_row.simps isDark_def tileSize_def signed_modulo_int_def)

lemma start_A: "startX (viewport drawA) = 0" "startY (viewport drawA) = 0"
  by (simp_all add: startX_def startY_def drawA_def)

lemma viewport_A:
  "rect_x (viewport drawA) = 0" "rect_y (viewport drawA) = 0"
  "rect_width (viewport drawA) = 80" "rect_height (viewport drawA) = 40"
  by (simp_all add: drawA_def)

lemma dequeuedB_eq:
  "dequeuedB = \<lparr>wqueue = \<lparr>queue = [DrawMsg drawC], resolvers = []\<rparr>,
     isProcessingMessages = True, currentRunId = [], lastDrawResult = None,
     queueProcessingStarted = 1000, posted = [], console = [],
     task = Dequeuing (Resolved (DrawMsg drawB))\<rparr>"
  by (simp add: dequeuedB_def stBC_eq worker_defs queue_defs env_at_def start_A viewport_A
      tile_row_A)

lemma tilingA_eq:
  "tilingA = \<lparr>wqueue = \<lparr>queue = [], resolvers = []\<rparr>, isProcessingMessages = True,
     currentRunId = ''r1'', lastDrawResult = None, queueProcessingStarted = 1000,
     posted = [], console = [],
     task = Tiling ''r1'' 0 [FillTile True 0 0, FillTile False 40 0] drawA\<rparr>"
  by (simp add: tilingA_def heavyA_eq worker_defs env_at_def start_A viewport_A tile_row_A)

lemma heavyZ_cancelled_eq:
  "heavyZ_cancelled = \<lparr>wqueue = \<lparr>queue = [], resolvers = []\<rparr>, isProcessingMessages = True,
     currentRunId = [], lastDrawResult = None, queueProcessingStarted = 1000,
     posted = [], console = [], task = Heavy ''r6'' 1000 drawZ\<rparr>"
  by (simp add: heavyZ_cancelled_def worker_defs queue_defs env_at_def)

lemma heavyB_eq:
  "heavyB = \<lparr>wqueue = \<lparr>queue = [], resolvers = []\<rparr>, isProcessingMessages = True,
     currentRunId = ''r2'',
     lastDrawResult = Some \<lparr>runId = ''r1'', timestamp = 1280, resultViewport = viewport drawA,
       bitmap = [FillTile True 0 0, FillTile False 40 0, FillMarker imageDims]\<rparr>,
     queueProcessingStarted = 1000,
     posted = [\<lparr>runId = ''r1'', timestamp = 1280, resultViewport = viewport drawA,
       bitmap = [FillTile True 0 0, FillTile False 40 0, FillMarker imageDims]\<rparr>],
     console = [], task = Heavy ''r2'' 1290 drawB\<rparr>"
  by (simp add: heavyB_def heavyA_eq worker_defs queue_defs env_at_def start_A viewport_A
      tile_row_A) (simp add: drawA_def)

lemma viewerA_eq: "viewerA = \<lparr>drawResultRef = Some resultA, isAnimationPendingRef = True\<rparr>"
  by (simp add: viewerA_def viewer_onmessage_def viewer_init_def updateCanvas_def)

section \<open>The task queue: contract and invariant\<close>

text \<open>
  C8. \<open>enqueue\<close> hands the item to the oldest pending \<open>dequeue\<close> when there is one: the item
  does not enter the buffer and exactly one resolver is taken off; otherwise the item is
  appended at the tail of the buffer. \<open>dequeue\<close> returns an already resolved promise of the
  buffer's head when the buffer is non-empty; otherwise its promise is pending, its
  resolver is registered last, and the next \<open>enqueue\<close> resolves it with the item produced.
\<close>

theorem AsyncQueue_contract:
  "(resolvers q = r # rs \<longrightarrow>
      enqueue item q = (Some (r, item), q\<lparr>resolvers := rs\<rparr>) \<and>
      items (snd (enqueue item q)) = items q \<and>
      Suc (length (resolvers (snd (enqueue item q)))) = length (resolvers q)) \<and>
   (resolvers q = [] \<longrightarrow>
      enqueue item q = (None, q\<lparr>queue := queue q @ [item]\<rparr>) \<and>
      items (snd (enqueue item q)) = items q @ [item]) \<and>
   (items q = a # rest \<longrightarrow>
      dequeue r' q = (Resolved a, q\<lparr>queue := rest\<rparr>) \<and>
      resolvers (snd (dequeue r' q)) = resolvers q) \<and>
   (items q = [] \<longrightarrow>
      dequeue r' q = (Pending, q\<lparr>resolvers := resolvers q @ [r']\<rparr>) \<and>
      items (snd (dequeue r' q)) = []) \<and>
   (items q = [] \<and> resolvers q = [] \<longrightarrow>
      enqueue item (snd (dequeue r' q)) = (Some (r', item), q))"
  by (simp add: enqueue_def dequeue_def items_def)

theorem AsyncQueue_contract_witness:
  "enqueue (7::nat) \<lparr>queue = [], resolvers = [1::nat, 2]\<rparr>
     = (Some (1, 7), \<lparr>queue = [], resolvers = [2]\<rparr>) \<and>
   enqueue (7::nat) \<lparr>queue = [5], resolvers = ([]::nat list)\<rparr>
     = (None, \<lparr>queue = [5, 7], resolvers = []\<rparr>) \<and>
   dequeue (3::nat) \<lparr>queue = [5::nat, 6], resolvers = []\<rparr>
     = (Resolved 5, \<lparr>queue = [6], resolvers = []\<rparr>) \<and>
   dequeue (3::nat) \<lparr>queue = ([]::nat list), resolvers = [1]\<rparr>
     = (Pending, \<lparr>queue = [], resolvers = [1, 3]\<rparr>) \<and>
   enqueue (7::nat) (snd (dequeue (3::nat) \<lparr>queue = [], resolvers = []\<rparr>))
     = (Some (3, 7), \<lparr>queue = [], resolvers = []\<rparr>)"
proof -
  let ?q1 = "\<lparr>queue = ([]::nat list), resolvers = [1::nat, 2]\<rparr>"
  let ?q2 = "\<lparr>queue = [5::nat], resolvers = ([]::nat list)\<rparr>"
  let ?q3 = "\<lparr>queue = [5::nat, 6], resolvers = ([]::nat list)\<rparr>"
  let ?q4 = "\<lparr>queue = ([]::nat list), resolvers = [1::nat]\<rparr>"
  let ?q5 = "\<lparr>queue = ([]::nat list), resolvers = ([]::nat list)\<rparr>"
  have h1: "resolvers ?q1 = 1 # [2]" by simp
  have h2: "resolvers ?q2 = []" by simp
  have h3: "items ?q3 = 5 # [6]" by (simp add: items_def)
  have h4: "items ?q4 = []" by (simp add: items_def)
  have h5: "items ?q5 = [] \<and> resolvers ?q5 = []" by (simp add: items_def)
  have "enqueue 7 ?q1 = (Some (1, 7), ?q1\<lparr>resolvers := [2]\<rparr>)"
    using AsyncQueue_contract [where q = ?q1 and r = 1 and rs = "[2]" and item = 7] h1 by blast
  moreover have "enqueue 7 ?q2 = (None, ?q2\<lparr>queue := queue ?q2 @ [7]\<rparr>)"
    using AsyncQueue_contract [where q = ?q2 and item = 7] h2 by blast
  moreover have "dequeue 3 ?q3 = (Resolved 5, ?q3\<lparr>queue := [6]\<rparr>)"
    using AsyncQueue_contract [where q = ?q3 and a = 5 and rest = "[6]" and r' = 3] h3 by blast
  moreover have "dequeue 3 ?q4 = (Pending, ?q4\<lparr>resolvers := resolvers ?q4 @ [3]\<rparr>)"
    using AsyncQueue_contract [where q = ?q4 and r' = 3] h4 by blast
  moreover have "enqueue 7 (snd (dequeue 3 ?q5)) = (Some (3, 7), ?q5)"
    using AsyncQueue_contract [where q = ?q5 and r' = 3 and item = 7] h5 by blast
  ultimately show ?thesis by simp
qed

lemma queue_inv_new: "queue_inv AsyncQueue_new"
  by (simp add: queue_inv_def AsyncQueue_new_def)

text \<open>
  C10. The buffer and the list of pending resolvers are never both non-empty: \<open>enqueue\<close>
  and \<open>dequeue\<close>, applied to a queue of which this holds, give a queue of which it holds.
  It holds of the new queue as well.
\<close>

theorem AsyncQueue_invariant:
  "queue_inv q \<Longrightarrow> queue_inv (snd (enqueue item q)) \<and> queue_inv (snd (dequeue r q))"
  by (auto simp: queue_inv_def enqueue_def dequeue_def split: list.splits)

theorem AsyncQueue_invariant_witness:
  "queue_inv \<lparr>queue = [5::nat], resolvers = ([]::nat list)\<rparr> \<and>
   queue_inv (snd (enqueue 7 \<lparr>queue = [5::nat], resolvers = ([]::nat list)\<rparr>)) \<and>
   queue_inv (snd (dequeue 3 \<lparr>queue = [5::nat], resolvers = ([]::nat list)\<rparr>))"
proof -
  have h: "queue_inv \<lparr>queue = [5::nat], resolvers = ([]::nat list)\<rparr>"
    by (simp add: queue_inv_def)
  show ?thesis
    using h AsyncQueue_invariant [OF h, of 7 3] by simp
qed

section \<open>The result gate: admission by timestamp\<close>

lemma viewer_onmessage_ref:
  "drawResultRef (viewer_onmessage result v) =
     (case drawResultRef v of
        None \<Rightarrow> Some result
      | Some cur \<Rightarrow> if timestamp result < timestamp cur then Some cur else Some result)"
  by (simp add: viewer_onmessage_def updateCanvas_def split: option.splits)

lemma fold_gate_mono:
  "drawResultRef v = Some cur \<Longrightarrow>
   \<exists>cur'. drawResultRef (fold viewer_onmessage rs v) = Some cur' \<and>
          timestamp cur \<le> timestamp cur'"
proof (induction rs arbitrary: v cur)
  case Nil
  then show ?case by simp
next
  case (Cons r rs)
  show ?case
  proof (cases "timestamp r < timestamp cur")
    case True
    then have "drawResultRef (viewer_onmessage r v) = Some cur"
      using Cons.prems by (simp add: viewer_onmessage_ref)
    from Cons.IH [OF this] show ?thesis by simp
  next
    case False
    then have "drawResultRef (viewer_onmessage r v) = Some r"
      using Cons.prems by (simp add: viewer_onmessage_ref)
    from Cons.IH [OF this] obtain cur' where
      "drawResultRef (fold viewer_onmessage rs (viewer_onmessage r v)) = Some cur'"
      "timestamp r \<le> timestamp cur'" by blast
    with False show ?thesis by auto
  qed
qed

lemma fold_gate_upper:
  "r \<in> set rs \<Longrightarrow>
   \<exists>cur'. drawResultRef (fold viewer_onmessage rs v) = Some cur' \<and>
          timestamp r \<le> timestamp cur'"
proof (induction rs arbitrary: v)
  case Nil
  then show ?case by simp
next
  case (Cons a rs)
  show ?case
  proof (cases "r \<in> set rs")
    case True
    from Cons.IH [OF this] show ?thesis by simp
  next
    case False
    with Cons.prems have ra: "r = a" by simp
    have "\<exists>c. drawResultRef (viewer_onmessage a v) = Some c \<and> timestamp a \<le> timestamp c"
      by (cases "drawResultRef v") (auto simp: viewer_onmessage_ref)
    then obtain c where c: "drawResultRef (viewer_onmessage a v) = Some c"
      "timestamp a \<le> timestamp c" by blast
    from fold_gate_mono [OF c(1), of rs] c(2) ra show ?thesis by auto
  qed
qed

text \<open>
  C1, as the claim states it, fails: a result whose timestamp equals that of the admitted
  result is not dropped. After \<open>resultA\<close> has been admitted, \<open>resultB\<close> with the same
  timestamp replaces it.
\<close>

theorem gate_tie_counterexample:
  "drawResultRef viewerA = Some resultA \<and>
   timestamp resultB = timestamp resultA \<and>
   drawResultRef (viewer_onmessage resultB viewerA) = Some resultB \<and>
   resultB \<noteq> resultA"
  by (simp add: viewerA_eq viewer_onmessage_def updateCanvas_def resultA_def resultB_def)

text \<open>
  C1, amended. The gate admits an incoming result exactly when the admitted result, if
  any, has no strictly greater timestamp. A strictly older result is dropped and leaves
  the viewer's state as it was; a result with an equal timestamp is admitted and replaces
  the admitted one. So over any sequence of results the timestamp of the exposed result
  never decreases, and at the end it is at least the timestamp of every result of the
  sequence.
\<close>

theorem gate_admission:
  "(drawResultRef (viewer_onmessage result v) = Some result \<longleftrightarrow>
      (\<forall>cur. drawResultRef v = Some cur \<longrightarrow> timestamp cur \<le> timestamp result)) \<and>
   (drawResultRef v = Some cur \<and> timestamp result < timestamp cur \<longrightarrow>
      viewer_onmessage result v = v) \<and>
   (drawResultRef v = Some cur \<and> timestamp result = timestamp cur \<longrightarrow>
      drawResultRef (viewer_onmessage result v) = Some result) \<and>
   (drawResultRef v = Some cur \<longrightarrow>
      (\<exists>cur'. drawResultRef (fold viewer_onmessage rs v) = Some cur' \<and>
              timestamp cur \<le> timestamp cur')) \<and>
   (\<forall>r \<in> set rs. \<exists>cur'. drawResultRef (fold viewer_onmessage rs v) = Some cur' \<and>
              timestamp r \<le> timestamp cur')"
  apply (intro conjI)
  subgoal by (auto simp: viewer_onmessage_ref split: option.splits)
  subgoal by (auto simp: viewer_onmessage_def)
  subgoal by (auto simp: viewer_onmessage_ref)
  subgoal using fold_gate_mono by blast
  subgoal using fold_gate_upper by blast
  done

theorem gate_admission_witness:
  "drawResultRef viewerA = Some resultA \<and>
   timestamp resultOld < timestamp resultA \<and>
   viewer_onmessage resultOld viewerA = viewerA \<and>
   timestamp resultB = timestamp resultA \<and>
   drawResultRef (viewer_onmessage resultB viewerA) = Some resultB \<and>
   (\<exists>cur'. drawResultRef (fold viewer_onmessage [resultOld, resultB] viewerA) = Some cur' \<and>
           timestamp resultA \<le> timestamp cur' \<and> timestamp resultOld \<le> timestamp cur')"
proof -
  have h1: "drawResultRef viewerA = Some resultA"
    by (simp add: viewerA_eq)
  have h2: "timestamp resultOld < timestamp resultA"
    by (simp add: resultOld_def resultA_def)
  have h3: "timestamp resultB = timestamp resultA"
    by (simp add: resultB_def resultA_def)
  have "viewer_onmessage resultOld viewerA = viewerA"
    using gate_admission [where v = viewerA and cur = resultA and result = resultOld] h1 h2
    by blast
  moreover have "drawResultRef (viewer_onmessage resultB viewerA) = Some resultB"
    using gate_admission [where v = viewerA and cur = resultA and result = resultB] h1 h3
    by blast
  moreover have "\<exists>cur'. drawResultRef (fold viewer_onmessage [resultOld, resultB] viewerA) = Some cur' \<and>
      timestamp resultA \<le> timestamp cur' \<and> timestamp resultOld \<le> timestamp cur'"
  proof -
    note G = gate_admission [where v = viewerA and cur = resultA and rs = "[resultOld, resultB]"]
    obtain c where c: "drawResultRef (fold viewer_onmessage [resultOld, resultB] viewerA) = Some c"
      "timestamp resultA \<le> timestamp c"
      using G h1 by blast
    have "\<forall>r \<in> set [resultOld, resultB].
        \<exists>cur'. drawResultRef (fold viewer_onmessage [resultOld, resultB] viewerA) = Some cur' \<and>
               timestamp r \<le> timestamp cur'"
      using G by blast
    then obtain c' where c': "drawResultRef (fold viewer_onmessage [resultOld, resultB] viewerA) = Some c'"
      "timestamp resultOld \<le> timestamp c'"
      by auto
    from c(1) c'(1) have "c' = c" by simp
    with c c' show ?thesis by blast
  qed
  ultimately show ?thesis
    using h1 h2 h3 by blast
qed

section \<open>The dispatcher: enqueueing, pre-emption, cancel\<close>

lemma onmessage_enqueue_running:
  "action message \<noteq> [] \<Longrightarrow> action message \<noteq> ''cancel'' \<Longrightarrow> resolvers (wqueue st) = [] \<Longrightarrow>
   isProcessingMessages st \<Longrightarrow>
   items (wqueue (onmessage e message st)) = items (wqueue st) @ [message]"
  by (simp add: onmessage_def shouldCancel_def shouldQueue_def cancelCurrentDraw_def
      queue_enqueue_def enqueue_def items_def Let_def)

lemma onmessage_enqueue_idle:
  "action message \<noteq> [] \<Longrightarrow> action message \<noteq> ''cancel'' \<Longrightarrow> resolvers (wqueue st) = [] \<Longrightarrow>
   \<not> isProcessingMessages st \<Longrightarrow>
   task (onmessage e message st) = Dequeuing (Resolved (hd (items (wqueue st) @ [message]))) \<and>
   items (wqueue (onmessage e message st)) = tl (items (wqueue st) @ [message]) \<and>
   isProcessingMessages (onmessage e message st) \<and>
   queueProcessingStarted (onmessage e message st) = date_now2 e"
  by (cases "queue (wqueue st)")
     (simp_all add: onmessage_def shouldCancel_def shouldQueue_def cancelCurrentDraw_def
      queue_enqueue_def enqueue_def dequeue_def items_def processQueue_def
      processQueue_loop_def Let_def)

lemma resume_skip:
  "task st = Dequeuing (Resolved (DrawMsg m)) \<Longrightarrow>
   list_ex (\<lambda>msg. action msg = ''draw'') (items (wqueue st)) \<Longrightarrow>
   resume e st = st\<lparr>task := LoopYield\<rparr>"
  by (simp add: resume_def handleDrawMessage_def)

lemma resume_start_draw:
  "task st = Dequeuing (Resolved (DrawMsg m)) \<Longrightarrow>
   \<not> list_ex (\<lambda>msg. action msg = ''draw'') (items (wqueue st)) \<Longrightarrow>
   resume e st = st\<lparr>currentRunId := random_id e, task := Heavy (random_id e) (perf_now e) m\<rparr>"
  by (simp add: resume_def handleDrawMessage_def draw_def Let_def)

text \<open>
  C2, as the claim states it, fails: the dispatcher does not look at the buffer. While
  the run for draw A is in flight, draw B is buffered; draw C arrives next and is
  buffered behind it, and the buffer holds two draw requests.
\<close>

theorem buffer_two_draws_counterexample:
  "items (wqueue heavyA) = [] \<and>
   items (wqueue (run [Message (env_at 1010 ''r2'' Context) (DrawMsg drawB)] heavyA))
     = [DrawMsg drawB] \<and>
   items (wqueue (run [Message (env_at 1010 ''r2'' Context) (DrawMsg drawB),
                       Message (env_at 1020 ''r3'' Context) (DrawMsg drawC)] heavyA))
     = [DrawMsg drawB, DrawMsg drawC] \<and>
   length (filter (\<lambda>msg. action msg = ''draw'')
     (items (wqueue (run [Message (env_at 1010 ''r2'' Context) (DrawMsg drawB),
                          Message (env_at 1020 ''r3'' Context) (DrawMsg drawC)] heavyA)))) = 2"
  by (simp add: heavyA_eq worker_defs queue_defs env_at_def)

text \<open>
  C2, amended. The dispatcher enqueues every incoming draw message, whatever the buffer
  holds: with no consumer waiting in \<open>dequeue\<close>, the message is appended at the tail of the
  buffer while a drain loop is running, and when none is running a drain loop starts and
  takes the head of the buffer extended by the message. The collapsing is done by the
  drain loop when it handles a dequeued draw request: if the buffer holds a draw request
  at that moment the dequeued one is skipped, no run is started and the state is
  otherwise unchanged; if it holds none, a run is started. An in-flight draw is not in
  the buffer and does not count.
\<close>

theorem draw_enqueue_collapse:
  "(resolvers (wqueue st) = [] \<and> isProcessingMessages st \<longrightarrow>
      items (wqueue (onmessage e (DrawMsg m) st)) = items (wqueue st) @ [DrawMsg m]) \<and>
   (resolvers (wqueue st) = [] \<and> \<not> isProcessingMessages st \<longrightarrow>
      task (onmessage e (DrawMsg m) st)
        = Dequeuing (Resolved (hd (items (wqueue st) @ [DrawMsg m]))) \<and>
      items (wqueue (onmessage e (DrawMsg m) st)) = tl (items (wqueue st) @ [DrawMsg m])) \<and>
   (task st = Dequeuing (Resolved (DrawMsg m)) \<and>
    list_ex (\<lambda>msg. action msg = ''draw'') (items (wqueue st)) \<longrightarrow>
      resume e st = st\<lparr>task := LoopYield\<rparr>) \<and>
   (task st = Dequeuing (Resolved (DrawMsg m)) \<and>
    \<not> list_ex (\<lambda>msg. action msg = ''draw'') (items (wqueue st)) \<longrightarrow>
      resume e st = st\<lparr>currentRunId := random_id e, task := Heavy (random_id e) (perf_now e) m\<rparr>)"
  using onmessage_enqueue_running [of "DrawMsg m" st e]
    onmessage_enqueue_idle [of "DrawMsg m" st e]
    resume_skip [of st m e] resume_start_draw [of st m e]
  by simp

theorem draw_enqueue_collapse_witness:
  "items (wqueue (onmessage (env_at 1020 ''r3'' Context) (DrawMsg drawC)
       (onmessage (env_at 1010 ''r2'' Context) (DrawMsg drawB) heavyA)))
     = [DrawMsg drawB, DrawMsg drawC] \<and>
   task (onmessage (env_at 1000 ''r1'' Context) (DrawMsg drawA) worker_init)
     = Dequeuing (Resolved (DrawMsg drawA)) \<and>
   resume (env_at 1060 ''r4'' Context) dequeuedB = dequeuedB\<lparr>task := LoopYield\<rparr> \<and>
   resume (env_at 1000 ''r1'' Context)
       (onmessage (env_at 1000 ''r1'' Context) (DrawMsg drawA) worker_init)
     = heavyA"
proof -
  let ?eA = "env_at 1000 ''r1'' Context"
  let ?eB = "env_at 1010 ''r2'' Context"
  let ?eC = "env_at 1020 ''r3'' Context"
  let ?stB = "onmessage ?eB (DrawMsg drawB) heavyA"
  let ?stA = "onmessage ?eA (DrawMsg drawA) worker_init"
  have stB: "?stB = \<lparr>wqueue = \<lparr>queue = [DrawMsg drawB], resolvers = []\<rparr>,
      isProcessingMessages = True, currentRunId = [], lastDrawResult = None,
      queueProcessingStarted = 1000, posted = [], console = [],
      task = Heavy ''r1'' 1000 drawA\<rparr>"
    by (simp add: heavyA_eq worker_defs queue_defs env_at_def)
  have h1: "resolvers (wqueue ?stB) = [] \<and> isProcessingMessages ?stB"
    by (simp add: stB)
  have h2: "resolvers (wqueue worker_init) = [] \<and> \<not> isProcessingMessages worker_init"
    by (simp add: worker_init_def AsyncQueue_new_def)
  have h3: "task dequeuedB = Dequeuing (Resolved (DrawMsg drawB)) \<and>
            list_ex (\<lambda>msg. action msg = ''draw'') (items (wqueue dequeuedB))"
    by (simp add: dequeuedB_eq items_def)
  have stA: "?stA = \<lparr>wqueue = \<lparr>queue = [], resolvers = []\<rparr>,
      isProcessingMessages = True, currentRunId = [], lastDrawResult = None,
      queueProcessingStarted = 1000, posted = [], console = [],
      task = Dequeuing (Resolved (DrawMsg drawA))\<rparr>"
    by (simp add: worker_defs queue_defs env_at_def)
  have h4: "task ?stA = Dequeuing (Resolved (DrawMsg drawA)) \<and>
            \<not> list_ex (\<lambda>msg. action msg = ''draw'') (items (wqueue ?stA))"
    by (simp add: stA items_def)
  have "items (wqueue (onmessage ?eC (DrawMsg drawC) ?stB)) = items (wqueue ?stB) @ [DrawMsg drawC]"
    using draw_enqueue_collapse [where st = ?stB and e = ?eC and m = drawC] h1 by blast
  then have c1: "items (wqueue (onmessage ?eC (DrawMsg drawC) ?stB)) = [DrawMsg drawB, DrawMsg drawC]"
    by (simp add: stB items_def)
  have "task (onmessage ?eA (DrawMsg drawA) worker_init)
          = Dequeuing (Resolved (hd (items (wqueue worker_init) @ [DrawMsg drawA])))"
    using draw_enqueue_collapse [where st = worker_init and e = ?eA and m = drawA] h2 by blast
  then have c2: "task ?stA = Dequeuing (Resolved (DrawMsg drawA))"
    by (simp add: worker_init_def queue_defs)
  have c3: "resume (env_at 1060 ''r4'' Context) dequeuedB = dequeuedB\<lparr>task := LoopYield\<rparr>"
    using draw_enqueue_collapse [where st = dequeuedB and m = drawB
        and e = "env_at 1060 ''r4'' Context"] h3 by blast
  have "resume ?eA ?stA = ?stA\<lparr>currentRunId := random_id ?eA,
          task := Heavy (random_id ?eA) (perf_now ?eA) drawA\<rparr>"
    using draw_enqueue_collapse [where st = ?stA and m = drawA and e = ?eA] h4 by blast
  then have c4: "resume ?eA ?stA = heavyA"
    unfolding stA by (simp add: heavyA_eq env_at_def)
  from c1 c2 c3 c4 show ?thesis by blast
qed


lemma processQueue_currentRunId: "currentRunId (processQueue e st) = currentRunId st"
  by (simp add: processQueue_def processQueue_loop_def processQueue_finally_def dequeue_def
      split: list.splits)

lemma queue_enqueue_currentRunId: "currentRunId (queue_enqueue message st) = currentRunId st"
  by (simp add: queue_enqueue_def enqueue_def split: list.splits)

lemma cancelByNewDrawRequest_draw:
  "cancelByNewDrawRequest now (DrawMsg m) st =
     (now - queueProcessingStarted st < 250 \<or>
      (\<exists>r. lastDrawResult st = Some r \<and> now < timestamp r + 250))"
  by (simp add: cancelByNewDrawRequest_def MAX_IMAGE_AGE_MS_def split: option.splits)

lemma idleA_eq:
  "idleA = \<lparr>wqueue = \<lparr>queue = [], resolvers = []\<rparr>, isProcessingMessages = False,
     currentRunId = ''r1'', lastDrawResult = None, queueProcessingStarted = 0,
     posted = [], console = [], task = Idle\<rparr>"
  by (simp add: idleA_def idle_events_def worker_defs queue_defs env_at_def)

lemma heavyA_run: "heavyA = run heavyA_events worker_init"
  by (simp add: heavyA_def heavyA_events_def)

lemma loop_started_idle: "loop_started idle_events worker_init None = Some 1000"
  by (simp add: idle_events_def starts_loop_def shouldQueue_def worker_init_def env_at_def)

lemma onmessage_flags:
  "start_recorded st t \<Longrightarrow>
   start_recorded (onmessage e message st)
     (if starts_loop message st then Some (date_now2 e) else t)"
  by (auto simp: start_recorded_def starts_loop_def onmessage_def shouldCancel_def
      shouldQueue_def cancelCurrentDraw_def queue_enqueue_def enqueue_def dequeue_def
      items_def processQueue_def processQueue_loop_def processQueue_finally_def Let_def
      split: list.splits)

lemma resume_flags:
  "(isProcessingMessages (resume e st) = isProcessingMessages st \<and>
    queueProcessingStarted (resume e st) = queueProcessingStarted st) \<or>
   (\<not> isProcessingMessages (resume e st) \<and> queueProcessingStarted (resume e st) = 0)"
proof (cases "task st")
  case Idle
  then show ?thesis by (simp add: resume_def)
next
  case (Dequeuing p)
  show ?thesis
  proof (cases p)
    case Pending
    with Dequeuing show ?thesis by (simp add: resume_def)
  next
    case (Resolved message)
    with Dequeuing show ?thesis
      by (cases message) (auto simp: resume_def handleDrawMessage_def draw_def Let_def)
  qed
next
  case (Heavy myRunId startTime m)
  then show ?thesis
    by (auto simp: resume_def simulateHeavyComputation_resume_def draw_render_def
        draw_rows_def draw_complete_def processQueue_finally_def Let_def
        split: canvas_outcome.splits)
next
  case (Tiling myRunId y cv m)
  then show ?thesis
    by (auto simp: resume_def draw_resume_def draw_rows_def draw_complete_def Let_def)
next
  case LoopYield
  then show ?thesis
    by (auto simp: resume_def processQueue_loop_def processQueue_finally_def dequeue_def
        items_def split: list.splits)
qed

lemma resume_start_recorded: "start_recorded st t \<Longrightarrow> start_recorded (resume e st) t"
  using resume_flags [of e st] by (auto simp: start_recorded_def)

lemma run_start_recorded:
  "start_recorded st t \<Longrightarrow> start_recorded (run evs st) (loop_started evs st t)"
proof (induction evs st t rule: loop_started.induct)
  case (1 st t)
  then show ?case by (simp add: run_def)
next
  case (2 e message evs st t)
  from "2.IH" [OF onmessage_flags [OF "2.prems"]] show ?case
    by (simp add: run_def)
next
  case (3 e evs st t)
  from "3.IH" [OF resume_start_recorded [OF "3.prems"]] show ?case
    by (simp add: run_def)
qed

lemma init_start_recorded: "start_recorded worker_init None"
  by (simp add: start_recorded_def worker_init_def)

text \<open>
  C3, as the claim states it, fails in its condition (a). Draw A arrives at 1000 and the
  drain loop starts; its run obtains no 2D context at 1100 and the loop ends at 1110,
  which resets the recorded start to 0, with the slot still holding \<open>r1\<close>. Draw B arrives
  at 1150: the drain loop last started 150 ms before, no result exists, and the current
  run is not invalidated.
\<close>

theorem preempt_idle_counterexample:
  "loop_started idle_events worker_init None = Some 1000 \<and>
   date_now (env_at 1150 ''r2'' Context) - 1000 < 250 \<and>
   currentRunId idleA = ''r1'' \<and>
   \<not> cancelByNewDrawRequest (date_now (env_at 1150 ''r2'' Context)) (DrawMsg drawB) idleA \<and>
   currentRunId (onmessage (env_at 1150 ''r2'' Context) (DrawMsg drawB) idleA) = ''r1''"
proof -
  have "date_now (env_at 1150 ''r2'' Context) - 1000 < 250 \<and>
     currentRunId idleA = ''r1'' \<and>
     \<not> cancelByNewDrawRequest (date_now (env_at 1150 ''r2'' Context)) (DrawMsg drawB) idleA \<and>
     currentRunId (onmessage (env_at 1150 ''r2'' Context) (DrawMsg drawB) idleA) = ''r1''"
    by (simp add: idleA_eq worker_defs queue_defs env_at_def)
  with loop_started_idle show ?thesis
    by blast
qed

text \<open>
  C3, amended. For every incoming draw message the dispatcher sets the current-run slot
  to none if and only if (a) the clock minus the recorded start \<open>queueProcessingStarted\<close>
  is strictly less than 250, or (b) there is a last completed result and the clock is
  strictly less than its timestamp plus 250; otherwise the handler leaves the slot as it
  was. In every state reached from \<open>worker_init\<close> the recorded start is the time the drain
  loop last started while a drain session is running, and 0 when none is running. So
  there (a) is: a drain session is running and started less than 250 ms before the
  clock, or none is running and the clock itself is below 250; the time since a session
  that has ended does not count.
\<close>

theorem preempt_condition:
  "currentRunId (onmessage e (DrawMsg m) st) =
     (if date_now e - queueProcessingStarted st < 250 \<or>
         (\<exists>r. lastDrawResult st = Some r \<and> date_now e < timestamp r + 250)
      then [] else currentRunId st) \<and>
   cancelByNewDrawRequest (date_now e) (DrawMsg m) st =
     (date_now e - queueProcessingStarted st < 250 \<or>
      (\<exists>r. lastDrawResult st = Some r \<and> date_now e < timestamp r + 250)) \<and>
   (isProcessingMessages (run evs worker_init) \<longrightarrow>
      loop_started evs worker_init None = Some (queueProcessingStarted (run evs worker_init))) \<and>
   (\<not> isProcessingMessages (run evs worker_init) \<longrightarrow>
      queueProcessingStarted (run evs worker_init) = 0) \<and>
   cancelByNewDrawRequest (date_now e) (DrawMsg m) (run evs worker_init) =
     ((isProcessingMessages (run evs worker_init) \<and>
       (\<exists>t. loop_started evs worker_init None = Some t \<and> date_now e - t < 250)) \<or>
      (\<not> isProcessingMessages (run evs worker_init) \<and> date_now e < 250) \<or>
      (\<exists>r. lastDrawResult (run evs worker_init) = Some r \<and> date_now e < timestamp r + 250))"
proof -
  have 1: "currentRunId (onmessage e (DrawMsg m) st) =
          (if cancelByNewDrawRequest (date_now e) (DrawMsg m) st then [] else currentRunId st)"
    by (simp add: onmessage_def shouldCancel_def shouldQueue_def Let_def
        processQueue_currentRunId queue_enqueue_currentRunId cancelCurrentDraw_def)
  have rec: "start_recorded (run evs worker_init) (loop_started evs worker_init None)"
    by (rule run_start_recorded [OF init_start_recorded])
  have 3: "loop_started evs worker_init None = Some (queueProcessingStarted (run evs worker_init))"
    if "isProcessingMessages (run evs worker_init)"
    using rec that by (simp add: start_recorded_def)
  have 4: "queueProcessingStarted (run evs worker_init) = 0"
    if "\<not> isProcessingMessages (run evs worker_init)"
    using rec that by (simp add: start_recorded_def)
  have 5: "cancelByNewDrawRequest (date_now e) (DrawMsg m) (run evs worker_init) =
     ((isProcessingMessages (run evs worker_init) \<and>
       (\<exists>t. loop_started evs worker_init None = Some t \<and> date_now e - t < 250)) \<or>
      (\<not> isProcessingMessages (run evs worker_init) \<and> date_now e < 250) \<or>
      (\<exists>r. lastDrawResult (run evs worker_init) = Some r \<and> date_now e < timestamp r + 250))"
  proof (cases "isProcessingMessages (run evs worker_init)")
    case True
    with 3 show ?thesis
      by (simp add: cancelByNewDrawRequest_draw)
  next
    case False
    with 4 show ?thesis
      by (simp add: cancelByNewDrawRequest_draw)
  qed
  from 1 3 4 5 show ?thesis
    by (simp only: cancelByNewDrawRequest_draw simp_thms) blast
qed


theorem preempt_condition_witness:
  "isProcessingMessages heavyA \<and> loop_started heavyA_events worker_init None = Some 1000 \<and>
   currentRunId heavyA = ''r1'' \<and>
   currentRunId (onmessage (env_at 1010 ''r2'' Context) (DrawMsg drawB) heavyA) = [] \<and>
   currentRunId (onmessage (env_at 1250 ''r2'' Context) (DrawMsg drawB) heavyA) = ''r1'' \<and>
   currentRunId heavyB = ''r2'' \<and>
   currentRunId (onmessage (env_at 1400 ''r3'' Context) (DrawMsg drawC) heavyB) = [] \<and>
   currentRunId (onmessage (env_at 1530 ''r3'' Context) (DrawMsg drawC) heavyB) = ''r2'' \<and>
   \<not> isProcessingMessages idleA \<and> queueProcessingStarted idleA = 0 \<and>
   \<not> cancelByNewDrawRequest (date_now (env_at 1150 ''r2'' Context)) (DrawMsg drawB) idleA"
proof -
  have a: "date_now (env_at 1010 ''r2'' Context) - queueProcessingStarted heavyA < 250"
    by (simp add: env_at_def heavyA_eq)
  have b: "\<not> (date_now (env_at 1250 ''r2'' Context) - queueProcessingStarted heavyA < 250 \<or>
      (\<exists>r. lastDrawResult heavyA = Some r \<and> date_now (env_at 1250 ''r2'' Context) < timestamp r + 250))"
    by (simp add: env_at_def heavyA_eq)
  have c: "\<not> date_now (env_at 1400 ''r3'' Context) - queueProcessingStarted heavyB < 250 \<and>
      (\<exists>r. lastDrawResult heavyB = Some r \<and> date_now (env_at 1400 ''r3'' Context) < timestamp r + 250)"
    by (simp add: env_at_def heavyB_eq)
  have d: "\<not> (date_now (env_at 1530 ''r3'' Context) - queueProcessingStarted heavyB < 250 \<or>
      (\<exists>r. lastDrawResult heavyB = Some r \<and> date_now (env_at 1530 ''r3'' Context) < timestamp r + 250))"
    by (simp add: env_at_def heavyB_eq)
  have pA: "isProcessingMessages (run heavyA_events worker_init)"
    by (simp add: heavyA_run [symmetric] heavyA_eq)
  have pI: "\<not> isProcessingMessages (run idle_events worker_init)"
    by (simp add: idleA_def [symmetric] idleA_eq)
  have i: "\<not> date_now (env_at 1150 ''r2'' Context) < 250 \<and>
      \<not> (\<exists>r. lastDrawResult (run idle_events worker_init) = Some r \<and>
             date_now (env_at 1150 ''r2'' Context) < timestamp r + 250)"
    by (simp add: idleA_def [symmetric] idleA_eq env_at_def)
  have "currentRunId (onmessage (env_at 1010 ''r2'' Context) (DrawMsg drawB) heavyA) = []"
    using preempt_condition [where e = "env_at 1010 ''r2'' Context" and m = drawB and st = heavyA] a
    by simp
  moreover have "currentRunId (onmessage (env_at 1250 ''r2'' Context) (DrawMsg drawB) heavyA)
      = currentRunId heavyA"
    using preempt_condition [where e = "env_at 1250 ''r2'' Context" and m = drawB and st = heavyA] b
    by simp
  moreover have "currentRunId (onmessage (env_at 1400 ''r3'' Context) (DrawMsg drawC) heavyB) = []"
    using preempt_condition [where e = "env_at 1400 ''r3'' Context" and m = drawC and st = heavyB] c
    by simp
  moreover have "currentRunId (onmessage (env_at 1530 ''r3'' Context) (DrawMsg drawC) heavyB)
      = currentRunId heavyB"
    using preempt_condition [where e = "env_at 1530 ''r3'' Context" and m = drawC and st = heavyB] d
    by simp
  moreover have "loop_started heavyA_events worker_init None
      = Some (queueProcessingStarted (run heavyA_events worker_init))"
    using preempt_condition [where evs = heavyA_events] pA by blast
  then have "loop_started heavyA_events worker_init None = Some 1000"
    by (simp add: heavyA_run [symmetric] heavyA_eq)
  moreover have "queueProcessingStarted (run idle_events worker_init) = 0"
    using preempt_condition [where evs = idle_events] pI by blast
  then have "queueProcessingStarted idleA = 0"
    by (simp add: idleA_def)
  moreover have "\<not> cancelByNewDrawRequest (date_now (env_at 1150 ''r2'' Context)) (DrawMsg drawB)
      (run idle_events worker_init)"
    using preempt_condition [where evs = idle_events and e = "env_at 1150 ''r2'' Context"
        and m = drawB] pI i by blast
  then have "\<not> cancelByNewDrawRequest (date_now (env_at 1150 ''r2'' Context)) (DrawMsg drawB) idleA"
    by (simp add: idleA_def)
  moreover have "currentRunId heavyA = ''r1''" "currentRunId heavyB = ''r2''"
    "isProcessingMessages heavyA" "\<not> isProcessingMessages idleA"
    by (simp_all add: heavyA_eq heavyB_eq idleA_eq)
  ultimately show ?thesis by simp
qed

lemma onmessage_cancel: "onmessage e CancelMessage st = st\<lparr>currentRunId := []\<rparr>"
  by (simp add: onmessage_def shouldCancel_def shouldQueue_def cancelCurrentDraw_def)

text \<open>
  C6. A cancel message sets the current-run slot to none within the handler and changes
  nothing else: it is not enqueued and nothing is posted. When the slot is none already,
  the state is unchanged, so whatever happens afterwards is what would have happened
  without the message.
\<close>

theorem cancel_message:
  "onmessage e CancelMessage st = st\<lparr>currentRunId := []\<rparr> \<and>
   wqueue (onmessage e CancelMessage st) = wqueue st \<and>
   posted (onmessage e CancelMessage st) = posted st \<and>
   console (onmessage e CancelMessage st) = console st \<and>
   task (onmessage e CancelMessage st) = task st \<and>
   (currentRunId st = [] \<longrightarrow>
      onmessage e CancelMessage st = st \<and>
      run evs (onmessage e CancelMessage st) = run evs st)"
proof (cases "currentRunId st = []")
  case True
  then have "st\<lparr>currentRunId := []\<rparr> = st"
    by (cases st) simp
  then show ?thesis
    by (simp add: onmessage_cancel)
next
  case False
  then show ?thesis
    by (simp add: onmessage_cancel)
qed

theorem cancel_message_witness:
  "currentRunId worker_init = [] \<and>
   onmessage (env_at 1000 ''r1'' Context) CancelMessage worker_init = worker_init \<and>
   run [Message (env_at 1010 ''r1'' Context) (DrawMsg drawA)]
       (onmessage (env_at 1000 ''r1'' Context) CancelMessage worker_init)
     = run [Message (env_at 1010 ''r1'' Context) (DrawMsg drawA)] worker_init \<and>
   currentRunId (onmessage (env_at 1005 ''r7'' Context) CancelMessage heavyA) = [] \<and>
   wqueue (onmessage (env_at 1005 ''r7'' Context) CancelMessage heavyA) = wqueue heavyA"
proof -
  have h: "currentRunId worker_init = []"
    by (simp add: worker_init_def)
  have "onmessage (env_at 1005 ''r7'' Context) CancelMessage heavyA = heavyA\<lparr>currentRunId := []\<rparr>"
    using cancel_message [where e = "env_at 1005 ''r7'' Context" and st = heavyA] by blast
  then have "currentRunId (onmessage (env_at 1005 ''r7'' Context) CancelMessage heavyA) = []"
    "wqueue (onmessage (env_at 1005 ''r7'' Context) CancelMessage heavyA) = wqueue heavyA"
    by simp_all
  then show ?thesis
    using h cancel_message [where e = "env_at 1000 ''r1'' Context" and st = worker_init
        and evs = "[Message (env_at 1010 ''r1'' Context) (DrawMsg drawA)]"]
    by blast
qed

section \<open>The draw executor: completion and tiling origin\<close>

lemma draw_complete_fields:
  "currentRunId (draw_complete e myRunId m cv st) =
     (if currentRunId st = myRunId then [] else currentRunId st)"
  "posted (draw_complete e myRunId m cv st) =
     posted st @ [\<lparr>runId = myRunId, timestamp = date_now e, resultViewport = viewport m,
                    bitmap = cv @ [FillMarker (imageDimensions m)]\<rparr>]"
  "lastDrawResult (draw_complete e myRunId m cv st) =
     Some \<lparr>runId = myRunId, timestamp = date_now e, resultViewport = viewport m,
            bitmap = cv @ [FillMarker (imageDimensions m)]\<rparr>"
  by (simp_all add: draw_complete_def Let_def)

lemma resume_last_row:
  "task st = Tiling myRunId y cv m \<Longrightarrow> currentRunId st = myRunId \<Longrightarrow>
   \<not> y + tileSize < rect_y (viewport m) + rect_height (viewport m) \<Longrightarrow>
   resume e st = (draw_complete e myRunId m cv st)\<lparr>task := LoopYield\<rparr>"
  by (simp add: resume_def draw_resume_def isCurrentRunCancelled_def draw_rows_def Let_def)

lemma resume_no_rows:
  "task st = Heavy myRunId startTime m \<Longrightarrow> currentRunId st \<noteq> myRunId \<Longrightarrow>
   canvas e = Context \<Longrightarrow>
   \<not> startY (viewport m) < rect_y (viewport m) + rect_height (viewport m) \<Longrightarrow>
   resume e st = (draw_complete e myRunId m [] st)\<lparr>task := LoopYield\<rparr>"
  by (simp add: resume_def simulateHeavyComputation_resume_def isCurrentRunCancelled_def
      draw_render_def draw_rows_def Let_def)

text \<open>
  C4. A run that completes sets the current-run slot to none exactly when the slot holds
  the run's own identifier, and leaves any other value of the slot as it is. So a run that
  is still current when its last row is done clears the slot and posts its result; and a
  run that completes although the slot no longer holds its identifier (the tile loop had
  no row in which to notice) posts its result and leaves the slot unchanged.
\<close>

theorem compare_and_clear:
  "currentRunId (draw_complete e myRunId m cv st) =
     (if currentRunId st = myRunId then [] else currentRunId st) \<and>
   (task st = Tiling myRunId y cv m \<and> currentRunId st = myRunId \<and>
    \<not> y + tileSize < rect_y (viewport m) + rect_height (viewport m) \<longrightarrow>
      currentRunId (resume e st) = [] \<and>
      length (posted (resume e st)) = Suc (length (posted st))) \<and>
   (task st = Heavy myRunId startTime m \<and> currentRunId st \<noteq> myRunId \<and> canvas e = Context \<and>
    \<not> startY (viewport m) < rect_y (viewport m) + rect_height (viewport m) \<longrightarrow>
      currentRunId (resume e st) = currentRunId st \<and>
      length (posted (resume e st)) = Suc (length (posted st)))"
  by (simp add: resume_last_row resume_no_rows draw_complete_fields)

theorem compare_and_clear_witness:
  "currentRunId tilingA = ''r1'' \<and>
   currentRunId (resume (env_at 1210 ''r5'' Context) tilingA) = [] \<and>
   length (posted (resume (env_at 1210 ''r5'' Context) tilingA)) = 1 \<and>
   currentRunId (heavyZ_cancelled\<lparr>currentRunId := ''r8''\<rparr>) = ''r8'' \<and>
   currentRunId (resume (env_at 1210 ''r5'' Context) (heavyZ_cancelled\<lparr>currentRunId := ''r8''\<rparr>))
     = ''r8'' \<and>
   length (posted (resume (env_at 1210 ''r5'' Context) (heavyZ_cancelled\<lparr>currentRunId := ''r8''\<rparr>)))
     = 1"
proof -
  let ?e = "env_at 1210 ''r5'' Context"
  let ?z = "heavyZ_cancelled\<lparr>currentRunId := ''r8''\<rparr>"
  have h1: "task tilingA = Tiling ''r1'' 0 [FillTile True 0 0, FillTile False 40 0] drawA \<and>
            currentRunId tilingA = ''r1'' \<and>
            \<not> 0 + tileSize < rect_y (viewport drawA) + rect_height (viewport drawA)"
    by (simp add: tilingA_eq viewport_A tileSize_def)
  have h2: "task ?z = Heavy ''r6'' 1000 drawZ \<and> currentRunId ?z \<noteq> ''r6'' \<and> canvas ?e = Context \<and>
            \<not> startY (viewport drawZ) < rect_y (viewport drawZ) + rect_height (viewport drawZ)"
    by (simp add: heavyZ_cancelled_eq env_at_def drawZ_def startY_def)
  have p1: "posted tilingA = []" and p2: "posted ?z = []" and c2: "currentRunId ?z = ''r8''"
    by (simp_all add: tilingA_eq heavyZ_cancelled_eq)
  have "currentRunId (resume ?e tilingA) = [] \<and>
        length (posted (resume ?e tilingA)) = Suc (length (posted tilingA))"
    using compare_and_clear [where st = tilingA and myRunId = "''r1''" and y = 0
        and cv = "[FillTile True 0 0, FillTile False 40 0]" and m = drawA and e = ?e] h1
    by blast
  moreover have "currentRunId (resume ?e ?z) = currentRunId ?z \<and>
        length (posted (resume ?e ?z)) = Suc (length (posted ?z))"
    using compare_and_clear [where st = ?z and myRunId = "''r6''" and startTime = 1000
        and m = drawZ and e = ?e] h2
    by blast
  ultimately show ?thesis
    using h1 p1 p2 c2 by simp
qed

text \<open>
  C5, evaluated where it fails. The viewport \<open>vpNeg\<close> has its corner at (-10, -90). The
  tiling starts at (0, -80): both are multiples of 40, and both lie after the corner, not
  at or before it. The first row painted is the one tile at (0, -80); nothing is painted
  left of 0 or above -80.
\<close>

theorem startX_negative_viewport:
  "rect_x vpNeg = - 10 \<and> startX vpNeg = 0 \<and> \<not> startX vpNeg \<le> rect_x vpNeg \<and>
   rect_y vpNeg = - 90 \<and> startY vpNeg = - 80 \<and> \<not> startY vpNeg \<le> rect_y vpNeg \<and>
   tile_row (startX vpNeg) (rect_x vpNeg + rect_width vpNeg) (startY vpNeg)
     = [FillTile True 0 (- 80)]"
  by (simp add: startX_def startY_def vpNeg_def tileSize_def signed_modulo_int_def
      tile_row.simps isDark_def)

text \<open>
  The start is a multiple of the tile size for every viewport. It is at or before the
  corner when the coordinate is not negative, and strictly after it when the coordinate is
  negative and not a multiple of the tile size.
\<close>

lemma start_dvd: "tileSize dvd startX vp" "tileSize dvd startY vp"
  by (simp_all add: startX_def startY_def minus_smod_eq_sdiv_mult)

lemma start_nonneg:
  "0 \<le> rect_x vp \<Longrightarrow> startX vp \<le> rect_x vp \<and> rect_x vp < startX vp + tileSize"
  "0 \<le> rect_y vp \<Longrightarrow> startY vp \<le> rect_y vp \<and> rect_y vp < startY vp + tileSize"
  by (simp_all add: startX_def startY_def tileSize_def signed_modulo_int_def sgn_if)

lemma smod_neg_pos:
  fixes k :: int
  assumes "k < 0" "\<not> 40 dvd k"
  shows "k smod 40 < 0"
proof -
  have "\<bar>k\<bar> mod 40 \<noteq> 0"
    using assms(2) by (simp add: dvd_eq_mod_eq_0 [symmetric])
  moreover have "0 \<le> \<bar>k\<bar> mod 40"
    by simp
  ultimately have "0 < \<bar>k\<bar> mod 40"
    by linarith
  then show ?thesis
    using assms(1) by (simp add: signed_modulo_int_def sgn_if)
qed

lemma start_negative:
  "rect_x vp < 0 \<Longrightarrow> \<not> tileSize dvd rect_x vp \<Longrightarrow> rect_x vp < startX vp"
  "rect_y vp < 0 \<Longrightarrow> \<not> tileSize dvd rect_y vp \<Longrightarrow> rect_y vp < startY vp"
  using smod_neg_pos [of "rect_x vp"] smod_neg_pos [of "rect_y vp"]
  by (simp_all add: startX_def startY_def tileSize_def)

section \<open>Faults and silent aborts\<close>

lemma resume_throw:
  assumes "task st = Heavy myRunId startTime m"
    and "canvas e = CanvasThrows err"
    and "isCurrentRunCancelled myRunId st \<or> \<not> perf_now e - startTime < durationMs"
  shows "resume e st = st\<lparr>console := console st @ [ConsoleError err],
                          isProcessingMessages := False, queueProcessingStarted := 0,
                          task := Idle\<rparr>"
  using assms
  by (auto simp: resume_def simulateHeavyComputation_resume_def draw_render_def
      processQueue_finally_def)

text \<open>In the model an exception comes from acquiring the canvas, and from nowhere else.\<close>

lemma Threw_only_from_canvas:
  "fst (handleQueueMessage e message st) \<noteq> Threw err"
  "fst (draw_resume e myRunId y cv m st) \<noteq> Threw err"
  "fst (simulateHeavyComputation_resume e myRunId startTime m st) = Threw err \<Longrightarrow>
     canvas e = CanvasThrows err"
  by (cases message;
      auto simp: handleDrawMessage_def draw_def draw_resume_def draw_rows_def
        simulateHeavyComputation_resume_def draw_render_def Let_def
        split: if_splits canvas_outcome.splits)+

text \<open>
  C7. When the handling of a message raises an exception (the run's heavy computation
  is over and acquiring the canvas throws), the drain loop catches it: the error is
  logged, the processing flag and the recorded start are reset and the drain loop is
  gone. The buffer is as it was, so the message is not put back, and nothing is posted or
  recorded as last result. The next message that is not a cancel message starts a new
  drain session, which takes the head of the buffer.
\<close>

theorem fault_at_drain_boundary:
  assumes "task st = Heavy myRunId startTime m"
    and "canvas e = CanvasThrows err"
    and "isCurrentRunCancelled myRunId st \<or> \<not> perf_now e - startTime < durationMs"
  shows "resume e st = st\<lparr>console := console st @ [ConsoleError err],
                          isProcessingMessages := False, queueProcessingStarted := 0,
                          task := Idle\<rparr> \<and>
         \<not> isProcessingMessages (resume e st) \<and>
         console (resume e st) = console st @ [ConsoleError err] \<and>
         wqueue (resume e st) = wqueue st \<and>
         posted (resume e st) = posted st \<and>
         lastDrawResult (resume e st) = lastDrawResult st \<and>
         (action message \<noteq> [] \<and> action message \<noteq> ''cancel'' \<and> resolvers (wqueue st) = [] \<longrightarrow>
           isProcessingMessages (onmessage e' message (resume e st)) \<and>
           queueProcessingStarted (onmessage e' message (resume e st)) = date_now2 e' \<and>
           task (onmessage e' message (resume e st))
             = Dequeuing (Resolved (hd (items (wqueue st) @ [message]))))"
proof -
  let ?st' = "resume e st"
  have eq: "?st' = st\<lparr>console := console st @ [ConsoleError err],
                          isProcessingMessages := False, queueProcessingStarted := 0,
                          task := Idle\<rparr>"
    by (rule resume_throw [OF assms])
  have idle: "\<not> isProcessingMessages ?st'" and q: "wqueue ?st' = wqueue st"
    by (simp_all add: eq)
  have "isProcessingMessages (onmessage e' message ?st') \<and>
        queueProcessingStarted (onmessage e' message ?st') = date_now2 e' \<and>
        task (onmessage e' message ?st') = Dequeuing (Resolved (hd (items (wqueue st) @ [message])))"
    if "action message \<noteq> []" "action message \<noteq> ''cancel''" "resolvers (wqueue st) = []"
    using onmessage_enqueue_idle [of message ?st' e'] that idle q by simp
  then show ?thesis
    using eq by simp
qed

theorem fault_at_drain_boundary_witness:
  "task heavyA = Heavy ''r1'' 1000 drawA \<and> isProcessingMessages heavyA \<and>
   \<not> isProcessingMessages (resume (env_at 1200 ''r5'' (CanvasThrows ''TypeError'')) heavyA) \<and>
   console (resume (env_at 1200 ''r5'' (CanvasThrows ''TypeError'')) heavyA)
     = [ConsoleError ''TypeError''] \<and>
   posted (resume (env_at 1200 ''r5'' (CanvasThrows ''TypeError'')) heavyA) = [] \<and>
   items (wqueue (resume (env_at 1200 ''r5'' (CanvasThrows ''TypeError'')) heavyA)) = [] \<and>
   isProcessingMessages (onmessage (env_at 1300 ''r2'' Context) (DrawMsg drawB)
     (resume (env_at 1200 ''r5'' (CanvasThrows ''TypeError'')) heavyA)) \<and>
   task (onmessage (env_at 1300 ''r2'' Context) (DrawMsg drawB)
     (resume (env_at 1200 ''r5'' (CanvasThrows ''TypeError'')) heavyA))
     = Dequeuing (Resolved (DrawMsg drawB))"
proof -
  let ?e = "env_at 1200 ''r5'' (CanvasThrows ''TypeError'')"
  have h1: "task heavyA = Heavy ''r1'' 1000 drawA"
    by (simp add: heavyA_eq)
  have h2: "canvas ?e = CanvasThrows ''TypeError''"
    by (simp add: env_at_def)
  have h3: "isCurrentRunCancelled ''r1'' heavyA \<or> \<not> perf_now ?e - 1000 < durationMs"
    by (simp add: env_at_def durationMs_def)
  have h4: "action (DrawMsg drawB) \<noteq> [] \<and> action (DrawMsg drawB) \<noteq> ''cancel'' \<and>
            resolvers (wqueue heavyA) = []"
    by (simp add: heavyA_eq)
  have more: "isProcessingMessages heavyA" "console heavyA = []" "posted heavyA = []"
    "wqueue heavyA = \<lparr>queue = [], resolvers = []\<rparr>"
    by (simp_all add: heavyA_eq)
  note F = fault_at_drain_boundary [OF h1 h2 h3, where message = "DrawMsg drawB"
      and e' = "env_at 1300 ''r2'' Context"]
  have a: "\<not> isProcessingMessages (resume ?e heavyA)"
    using F by blast
  have b: "console (resume ?e heavyA) = console heavyA @ [ConsoleError ''TypeError'']"
    using F by blast
  have c: "posted (resume ?e heavyA) = posted heavyA"
    using F by blast
  have d: "wqueue (resume ?e heavyA) = wqueue heavyA"
    using F by blast
  have "isProcessingMessages (onmessage (env_at 1300 ''r2'' Context) (DrawMsg drawB)
          (resume ?e heavyA)) \<and>
        task (onmessage (env_at 1300 ''r2'' Context) (DrawMsg drawB) (resume ?e heavyA))
          = Dequeuing (Resolved (hd (items (wqueue heavyA) @ [DrawMsg drawB])))"
    using F h4 by blast
  then show ?thesis
    using a b c d h1 more by (simp add: items_def)
qed

lemma resume_no_context:
  assumes "task st = Heavy myRunId startTime m"
    and "canvas e = NoContext"
    and "isCurrentRunCancelled myRunId st \<or> \<not> perf_now e - startTime < durationMs"
  shows "resume e st = st\<lparr>task := LoopYield\<rparr>"
  using assms
  by (auto simp: resume_def simulateHeavyComputation_resume_def draw_render_def)

text \<open>
  C9. When the heavy computation of a run is over and no 2D context is obtained, the
  run ends there: the drain loop goes on to its yield and nothing else changes. No result
  is posted or recorded, nothing is logged, and the current-run slot keeps its value: if
  it held the run's identifier it still holds it, whereas completing the run from the
  same state would have set it to none.
\<close>

theorem no_context_silent_abort:
  assumes "task st = Heavy myRunId startTime m"
    and "canvas e = NoContext"
    and "isCurrentRunCancelled myRunId st \<or> \<not> perf_now e - startTime < durationMs"
  shows "resume e st = st\<lparr>task := LoopYield\<rparr> \<and>
         posted (resume e st) = posted st \<and> console (resume e st) = console st \<and>
         lastDrawResult (resume e st) = lastDrawResult st \<and>
         currentRunId (resume e st) = currentRunId st \<and>
         (currentRunId st = myRunId \<longrightarrow>
            currentRunId (resume e st) = myRunId \<and>
            currentRunId (draw_complete e myRunId m cv st) = [])"
  by (simp add: resume_no_context [OF assms] draw_complete_fields)

theorem no_context_silent_abort_witness:
  "task heavyA = Heavy ''r1'' 1000 drawA \<and> currentRunId heavyA = ''r1'' \<and>
   resume (env_at 1200 ''r5'' NoContext) heavyA = heavyA\<lparr>task := LoopYield\<rparr> \<and>
   posted (resume (env_at 1200 ''r5'' NoContext) heavyA) = [] \<and>
   console (resume (env_at 1200 ''r5'' NoContext) heavyA) = [] \<and>
   currentRunId (resume (env_at 1200 ''r5'' NoContext) heavyA) = ''r1'' \<and>
   currentRunId (draw_complete (env_at 1200 ''r5'' NoContext) ''r1'' drawA [] heavyA) = []"
proof -
  let ?e = "env_at 1200 ''r5'' NoContext"
  have h1: "task heavyA = Heavy ''r1'' 1000 drawA"
    by (simp add: heavyA_eq)
  have h2: "canvas ?e = NoContext"
    by (simp add: env_at_def)
  have h3: "isCurrentRunCancelled ''r1'' heavyA \<or> \<not> perf_now ?e - 1000 < durationMs"
    by (simp add: env_at_def durationMs_def)
  have more: "currentRunId heavyA = ''r1''" "console heavyA = []" "posted heavyA = []"
    by (simp_all add: heavyA_eq)
  show ?thesis
    using no_context_silent_abort [OF h1 h2 h3, where cv = "[]"] h1 more
    by simp
qed

section \<open>Reachable states\<close>

lemma worker_inv_init: "worker_inv worker_init"
  by (simp add: worker_inv_def worker_init_def AsyncQueue_new_def)

lemma worker_inv_onmessage: "worker_inv st \<Longrightarrow> worker_inv (onmessage e message st)"
  by (auto simp: worker_inv_def onmessage_def shouldCancel_def shouldQueue_def
      cancelCurrentDraw_def queue_enqueue_def enqueue_def dequeue_def items_def
      processQueue_def processQueue_loop_def processQueue_finally_def Let_def
      split: list.splits)

lemma worker_inv_resume:
  assumes "worker_inv st"
  shows "worker_inv (resume e st)"
proof (cases "task st")
  case Idle
  then show ?thesis
    using assms by (simp add: resume_def)
next
  case (Dequeuing p)
  show ?thesis
  proof (cases p)
    case Pending
    with Dequeuing assms show ?thesis
      by (simp add: resume_def)
  next
    case (Resolved message)
    with Dequeuing assms show ?thesis
      by (cases message)
         (auto simp: worker_inv_def resume_def handleDrawMessage_def draw_def Let_def)
  qed
next
  case (Heavy myRunId startTime m)
  with assms show ?thesis
    by (auto simp: worker_inv_def resume_def simulateHeavyComputation_resume_def
        draw_render_def draw_rows_def draw_complete_def processQueue_finally_def Let_def
        split: canvas_outcome.splits)
next
  case (Tiling myRunId y cv m)
  with assms show ?thesis
    by (auto simp: worker_inv_def resume_def draw_resume_def draw_rows_def
        draw_complete_def Let_def)
next
  case LoopYield
  with assms show ?thesis
    by (auto simp: worker_inv_def resume_def processQueue_loop_def processQueue_finally_def
        dequeue_def items_def split: list.splits)
qed

lemma worker_inv_run: "worker_inv st \<Longrightarrow> worker_inv (run evs st)"
proof (induction evs arbitrary: st)
  case Nil
  then show ?case by (simp add: run_def)
next
  case (Cons ev evs)
  have "worker_inv (step ev st)"
    using Cons.prems by (cases ev) (simp_all add: worker_inv_onmessage worker_inv_resume)
  from Cons.IH [OF this] show ?case
    by (simp add: run_def)
qed

end
